theory Spec2Isabelle
  imports Main "HOL-Library.Sublist"
begin

section \<open>The migration engine of gisard/migrate\<close>

text \<open>
  The engine reads an ordered list of step names from a file, resolves every step that has
  not been applied yet to a handler (the text of a \<^verbatim>\<open>.sql\<close> file, or a method of a
  registered object found by reflection), and executes the handlers one after the other
  while it keeps a single row \<open>(version, dirty)\<close> of a schema table up to date.

  The operating system, the database and the registered Go code are outside the package.
  They appear here as an environment record whose fields answer the calls the package
  makes, so that every error branch of the source is a branch of the model, and as a
  world record that holds what the calls change: the row of the schema table, the
  business data that the steps work on, and the trace of the effects issued so far.
  The mutex of the engine only serialises calls and is not modelled: every operation
  below is one uninterrupted call.
\<close>

subsection \<open>Errors\<close>

text \<open>
  The source builds its errors from format strings; each format is a constructor that
  carries the formatted arguments. \<open>OsErrNotExist\<close> stands for an error for which
  \<^verbatim>\<open>errors.Is(err, os.ErrNotExist)\<close> holds, \<open>SqlErrNoRows\<close> for one for which
  \<^verbatim>\<open>errors.Is(err, sql.ErrNoRows)\<close> holds, \<open>ExternalErr\<close> for any other error
  that the operating system, the database or user code returns, and \<open>RuntimePanic\<close>
  for a panic of the Go runtime that leaves the call.
\<close>

datatype err =
    ErrParamIsNotFunc
  | ErrSchemaRecordIsEmpty int
  | ErrSchemaItemIsDuplicate string
  | ErrFuncNameIsDuplicate string
  | ErrFileNameIsDuplicate string
  | ErrFileIsSameAsFunc string
  | ErrFileNameNotExist string
  | ErrFuncNameNotExist string
  | ErrFindDirtyIndex int
  | ErrSchemaVersionLargeRecord int
  | ErrFileTypeNotSupported string
  | ErrFuncFormatNotCorrect string
  | ErrQueryWithIndex string int
  | OsErrNotExist
  | SqlErrNoRows
  | ExternalErr string
  | RuntimePanic string

subsection \<open>Data\<close>

text \<open>
  The row of the schema table (\<^verbatim>\<open>type schema struct\<close>). The package adds to an
  \<^verbatim>\<open>int\<close> only when it counts the lines of the list file and when it turns a position
  of the item list into an index, so no operation on its 64-bit integers wraps around, and
  they are integers here.
\<close>

record schema =
  version :: int
  dirty :: bool

text \<open>
  What reflection shows of a value: whether it is a function, the types of its
  parameters and results, and what calling it does to the business data.
\<close>

datatype go_type = TContext | TError | TOther string

datatype go_result = RNil | RErr err

datatype 'b rvalue =
    NotFunc
  | Func "go_type list" "go_type list" "'b \<Rightarrow> go_result list \<times> 'b"

text \<open>\<^verbatim>\<open>type method struct { name string; value reflect.Value }\<close>, named \<open>method_t\<close> here.\<close>

record 'b method_t =
  method_name :: string
  method_value :: "'b rvalue"

text \<open>
  Modelled from the spec: the interface \<^verbatim>\<open>Handler\<close>, whose declaration is not among
  the sources; it is the capability set \<^verbatim>\<open>GetIndex() int\<close>, \<^verbatim>\<open>Exec(ctx) error\<close>.
  Its implementations are the two of the package (\<^verbatim>\<open>sqlHandler\<close> with its index and
  query, \<^verbatim>\<open>GoHandler\<close> with its index and function) and any one that a caller passes
  to \<^verbatim>\<open>AddHandlers\<close>, given by the index it returns and by what its \<^verbatim>\<open>Exec\<close> does
  to the business data.
\<close>

datatype 'b handler =
    SqlHandler int string
  | GoHandler int "'b rvalue"
  | UserHandler int "'b \<Rightarrow> err option \<times> 'b"

text \<open>The statements that the engine sends to the schema table.\<close>

datatype stmt =
    CreateTable
  | QueryRecord
  | InsertDefault
  | UpdateVersion int
  | UpdateDirty int

text \<open>
  The effects that a call issues, in the order of issue: the creations in the file
  system, the statements sent to the schema table, whether they succeed or not, and the
  calls of \<^verbatim>\<open>Exec\<close>.
\<close>

datatype 'b event =
    FsMkdirAll string
  | FsCreate string
  | Db stmt
  | Exec "'b handler"

text \<open>
  The world: the row of the schema table (\<open>None\<close> when the table is missing or
  empty), the business data, and the trace. The steps work on the business data only;
  the row is written by the engine alone.
\<close>

record 'b world =
  row :: "schema option"
  biz :: 'b
  trace :: "'b event list"

text \<open>
  An open file is known by what a \<^verbatim>\<open>bufio.Scanner\<close> yields on it (the tokens of
  successive \<^verbatim>\<open>Scan\<close> calls until \<^verbatim>\<open>Scan\<close> returns false) and by what
  \<^verbatim>\<open>io.ReadAll\<close> returns on it.
\<close>

record os_file =
  scan_tokens :: "string list"
  read_all :: "err + string"

record dir_entry =
  entry_Name :: string
  entry_IsDir :: bool

text \<open>
  The environment of one call. \<open>db_fault\<close> tells whether the statement sent to the
  schema table after the given number of earlier effects fails. \<open>tx_Exec\<close> gives the
  failure message of a statement or the business data as the statement leaves them
  inside its transaction; a transaction that is rolled back, or whose commit fails,
  leaves the business data as they were before it began.
\<close>

record 'b env =
  os_Open :: "string \<Rightarrow> err + os_file"
  os_MkdirAll :: "string \<Rightarrow> err option"
  os_Create :: "string \<Rightarrow> err option"
  os_ReadDir :: "string \<Rightarrow> err + dir_entry list"
  path_Dir :: "string \<Rightarrow> string"
  db_fault :: "nat \<Rightarrow> stmt \<Rightarrow> string option"
  db_BeginTx :: "'b \<Rightarrow> string option"
  tx_Exec :: "string \<Rightarrow> 'b \<Rightarrow> string + 'b"
  tx_Commit :: "'b \<Rightarrow> string option"

text \<open>\<^verbatim>\<open>type migrate struct\<close>; an applied object is the list of its methods.\<close>

record 'b migrate =
  schemaDir :: string
  schemaFile :: string
  schemaTable :: string
  applyObjects :: "'b method_t list list"
  handlers :: "'b handler list"

subsection \<open>Constants and construction\<close>

definition sqlFileExt :: string where
  "sqlFileExt = ''.sql''"

definition funcExt :: string where
  "funcExt = ''''"

definition defaultSchemaTableName :: string where
  "defaultSchemaTableName = ''schema_migrations''"

definition defaultSchemaDir :: string where
  "defaultSchemaDir = ''./migrations''"

definition defaultSchemaFile :: string where
  "defaultSchemaFile = ''migrate.txt''"

text \<open>\<^verbatim>\<open>fmt.Sprintf("%s/%s", a, b)\<close>\<close>

definition fileJoin :: "string \<Rightarrow> string \<Rightarrow> string" where
  "fileJoin a b = a @ ''/'' @ b"

definition WithSchemaTable :: "string \<Rightarrow> 'b migrate \<Rightarrow> 'b migrate" where
  "WithSchemaTable tableName m = m\<lparr>schemaTable := tableName\<rparr>"

definition WithSchemaDir :: "string \<Rightarrow> 'b migrate \<Rightarrow> 'b migrate" where
  "WithSchemaDir dir m = m\<lparr>schemaDir := dir\<rparr>"

definition WithSchemaFile :: "string \<Rightarrow> 'b migrate \<Rightarrow> 'b migrate" where
  "WithSchemaFile f m = m\<lparr>schemaFile := f\<rparr>"

definition NewMigrate :: "('b migrate \<Rightarrow> 'b migrate) list \<Rightarrow> 'b migrate" where
  "NewMigrate options =
     fold (\<lambda>option m. option m) options
       \<lparr>schemaDir = defaultSchemaDir, schemaFile = defaultSchemaFile,
        schemaTable = defaultSchemaTableName, applyObjects = [], handlers = []\<rparr>"

definition AddHandlers :: "'b handler list \<Rightarrow> 'b migrate \<Rightarrow> 'b migrate" where
  "AddHandlers hs m = m\<lparr>handlers := handlers m @ hs\<rparr>"

definition ApplyObjects :: "'b method_t list list \<Rightarrow> 'b migrate \<Rightarrow> 'b migrate" where
  "ApplyObjects objects m = m\<lparr>applyObjects := applyObjects m @ objects\<rparr>"

subsection \<open>Handlers\<close>

fun GetIndex :: "'b handler \<Rightarrow> int" where
  "GetIndex (SqlHandler index query) = index"
| "GetIndex (GoHandler index function) = index"
| "GetIndex (UserHandler index exec) = index"

definition newSQLHandler :: "int \<Rightarrow> string \<Rightarrow> 'b handler" where
  "newSQLHandler index query = SqlHandler index query"

definition newGoHandler :: "int \<Rightarrow> 'b rvalue \<Rightarrow> 'b handler" where
  "newGoHandler index function = GoHandler index function"

text \<open>
  \<^verbatim>\<open>sqlHandler.Exec\<close>: nothing for an empty query; otherwise begin a transaction,
  execute, roll back and wrap the message on failure, commit on success. The results of
  \<^verbatim>\<open>Rollback\<close> and of \<^verbatim>\<open>Commit\<close> are thrown away.
\<close>

definition sqlHandler_Exec :: "'b env \<Rightarrow> int \<Rightarrow> string \<Rightarrow> 'b \<Rightarrow> err option \<times> 'b" where
  "sqlHandler_Exec env index query b =
     (if query = [] then (None, b)
      else case db_BeginTx env b of
        Some msg \<Rightarrow> (Some (ExternalErr msg), b)
      | None \<Rightarrow>
          (case tx_Exec env query b of
             Inl msg \<Rightarrow> (Some (ErrQueryWithIndex msg index), b)
           | Inr b' \<Rightarrow>
               (case tx_Commit env b' of
                  Some msg \<Rightarrow> (None, b)
                | None \<Rightarrow> (None, b'))))"

text \<open>
  \<^verbatim>\<open>GoHandler.Exec\<close>: call the function by reflection; no result or a nil result is
  success, any other result is the error. Calling a value that is not a function panics.
\<close>

definition goHandler_Exec :: "'b rvalue \<Rightarrow> 'b \<Rightarrow> err option \<times> 'b" where
  "goHandler_Exec function b =
     (case function of
        NotFunc \<Rightarrow> (Some (RuntimePanic ''reflect: call of non-function''), b)
      | Func ins outs call \<Rightarrow>
          (case call b of
             ([], b') \<Rightarrow> (None, b')
           | (RNil # vs, b') \<Rightarrow> (None, b')
           | (RErr e # vs, b') \<Rightarrow> (Some e, b')))"

fun handler_Exec :: "'b env \<Rightarrow> 'b handler \<Rightarrow> 'b \<Rightarrow> err option \<times> 'b" where
  "handler_Exec env (SqlHandler index query) b = sqlHandler_Exec env index query b"
| "handler_Exec env (GoHandler index function) b = goHandler_Exec function b"
| "handler_Exec env (UserHandler index exec) b = exec b"

subsection \<open>The item list\<close>

text \<open>
  The loop of \<^verbatim>\<open>getSchemaItems\<close> over the tokens of the scanner. An empty line ends
  the loop without an error when no token follows it, and is an error at its line number
  otherwise; a line seen before is an error; any other line is appended.
\<close>

fun scanItems :: "string list \<Rightarrow> int \<Rightarrow> string set \<Rightarrow> string list \<Rightarrow> err + string list" where
  "scanItems [] index itemMap schemaItems = Inr schemaItems"
| "scanItems (line # rest) index itemMap schemaItems =
     (if line = [] then
        (case rest of
           [] \<Rightarrow> Inr schemaItems
         | next_line # rest' \<Rightarrow> Inl (ErrSchemaRecordIsEmpty (index + 1)))
      else if line \<in> itemMap then Inl (ErrSchemaItemIsDuplicate line)
      else scanItems rest (index + 1) (insert line itemMap) (schemaItems @ [line]))"

text \<open>
  \<^verbatim>\<open>getSchemaItems\<close>: open the list file; when it does not exist, create its directory
  and the file, which is then empty; any other failure is returned.
\<close>

definition getSchemaItems ::
  "'b env \<Rightarrow> 'b migrate \<Rightarrow> 'b world \<Rightarrow> (err + string list) \<times> 'b world" where
  "getSchemaItems env m w =
     (let schemaFileName = fileJoin (schemaDir m) (schemaFile m) in
      case os_Open env schemaFileName of
        Inr f \<Rightarrow> (scanItems (scan_tokens f) 0 {} [], w)
      | Inl e \<Rightarrow>
          if e = OsErrNotExist then
            (let w1 = w\<lparr>trace := trace w @ [FsMkdirAll (path_Dir env schemaFileName)]\<rparr> in
             case os_MkdirAll env (path_Dir env schemaFileName) of
               Some e1 \<Rightarrow> (Inl e1, w1)
             | None \<Rightarrow>
                 (let w2 = w1\<lparr>trace := trace w1 @ [FsCreate schemaFileName]\<rparr> in
                  case os_Create env schemaFileName of
                    Some e2 \<Rightarrow> (Inl e2, w2)
                  | None \<Rightarrow> (scanItems [] 0 {} [], w2)))
          else (Inl e, w))"

subsection \<open>Methods and files\<close>

text \<open>
  \<^verbatim>\<open>getMethods\<close>: the two nested loops visit the methods of all applied objects in
  order; a name met twice is an error.
\<close>

fun addMethods ::
  "'b method_t list \<Rightarrow> (string \<rightharpoonup> 'b method_t) \<Rightarrow> err + (string \<rightharpoonup> 'b method_t)" where
  "addMethods [] methods = Inr methods"
| "addMethods (mt # mts) methods =
     (case methods (method_name mt) of
        Some old \<Rightarrow> Inl (ErrFuncNameIsDuplicate (method_name mt))
      | None \<Rightarrow> addMethods mts (methods(method_name mt \<mapsto> mt)))"

definition getMethods :: "'b migrate \<Rightarrow> err + (string \<rightharpoonup> 'b method_t)" where
  "getMethods m = addMethods (concat (applyObjects m)) Map.empty"

text \<open>
  \<^verbatim>\<open>getFileNames\<close>: the names of the entries of the schema directory that are not
  directories. The Go map of names is the list of its keys in the order of insertion.
\<close>

fun collectFileNames :: "dir_entry list \<Rightarrow> string list \<Rightarrow> err + string list" where
  "collectFileNames [] fileNameMap = Inr fileNameMap"
| "collectFileNames (entry # entries) fileNameMap =
     (if entry_IsDir entry then collectFileNames entries fileNameMap
      else if entry_Name entry \<in> set fileNameMap
        then Inl (ErrFileNameIsDuplicate (entry_Name entry))
      else collectFileNames entries (fileNameMap @ [entry_Name entry]))"

definition getFileNames :: "'b env \<Rightarrow> 'b migrate \<Rightarrow> err + string list" where
  "getFileNames env m =
     (case os_ReadDir env (schemaDir m) of
        Inl e \<Rightarrow> Inl e
      | Inr entries \<Rightarrow> collectFileNames entries [])"

text \<open>
  The loop of \<^verbatim>\<open>Run\<close> that rejects a file named like a method. Go visits the keys of
  a map in no fixed order, so the source names some such file; the model names the first
  in the order of the directory.
\<close>

fun checkFileSameAsFunc :: "string list \<Rightarrow> (string \<rightharpoonup> 'b method_t) \<Rightarrow> err option" where
  "checkFileSameAsFunc [] methodMap = None"
| "checkFileSameAsFunc (fileName # fileNames) methodMap =
     (case methodMap fileName of
        Some mt \<Rightarrow> Some (ErrFileIsSameAsFunc fileName)
      | None \<Rightarrow> checkFileSameAsFunc fileNames methodMap)"

definition getFileContent :: "'b env \<Rightarrow> string \<Rightarrow> err + string" where
  "getFileContent env fileName =
     (case os_Open env fileName of
        Inl e \<Rightarrow> Inl e
      | Inr f \<Rightarrow> read_all f)"

text \<open>
  \<^verbatim>\<open>checkMethodFormat\<close>: the value must be a function of one parameter of type
  \<^verbatim>\<open>context.Context\<close> with one result of type \<^verbatim>\<open>error\<close>.
\<close>

definition checkMethodFormat :: "'b method_t \<Rightarrow> err option" where
  "checkMethodFormat mh =
     (case method_value mh of
        NotFunc \<Rightarrow> Some ErrParamIsNotFunc
      | Func ins outs call \<Rightarrow>
          if length ins \<noteq> 1 \<or> length outs \<noteq> 1
            then Some (ErrFuncFormatNotCorrect (method_name mh))
          else if ins ! 0 \<noteq> TContext \<or> outs ! 0 \<noteq> TError
            then Some (ErrFuncFormatNotCorrect (method_name mh))
          else None)"

text \<open>
  \<^verbatim>\<open>path.Ext\<close> of the Go library: the suffix that starts at the last dot of the last
  element of the path, empty when that element has no dot. The scan runs from the end
  of the path, keeps the characters it has seen, and stops at a slash.
\<close>

fun ext_scan :: "string \<Rightarrow> string \<Rightarrow> string" where
  "ext_scan [] seen = []"
| "ext_scan (c # cs) seen =
     (if c = CHR ''/'' then []
      else if c = CHR ''.'' then c # seen
      else ext_scan cs (c # seen))"

definition path_Ext :: "string \<Rightarrow> string" where
  "path_Ext p = ext_scan (rev p) []"

subsection \<open>The schema table\<close>

fun apply_stmt :: "stmt \<Rightarrow> schema option \<Rightarrow> schema option" where
  "apply_stmt CreateTable r = r"
| "apply_stmt QueryRecord r = r"
| "apply_stmt InsertDefault r =
     (case r of None \<Rightarrow> Some \<lparr>version = 0, dirty = False\<rparr> | Some old \<Rightarrow> Some old)"
| "apply_stmt (UpdateVersion v) r = map_option (\<lambda>old. old\<lparr>version := v\<rparr>) r"
| "apply_stmt (UpdateDirty v) r = map_option (\<lambda>old. \<lparr>version = v, dirty = True\<rparr>) r"

text \<open>\<^verbatim>\<open>db.Exec\<close> of a statement on the schema table.\<close>

definition db_Exec :: "'b env \<Rightarrow> stmt \<Rightarrow> 'b world \<Rightarrow> err option \<times> 'b world" where
  "db_Exec env s w =
     (let w1 = w\<lparr>trace := trace w @ [Db s]\<rparr> in
      case db_fault env (length (trace w)) s of
        Some msg \<Rightarrow> (Some (ExternalErr msg), w1)
      | None \<Rightarrow> (None, w1\<lparr>row := apply_stmt s (row w)\<rparr>))"

text \<open>\<^verbatim>\<open>db.QueryRow(...).Scan(...)\<close> of the row of the schema table.\<close>

definition db_QueryRow :: "'b env \<Rightarrow> 'b world \<Rightarrow> (err + schema) \<times> 'b world" where
  "db_QueryRow env w =
     (let w1 = w\<lparr>trace := trace w @ [Db QueryRecord]\<rparr> in
      case db_fault env (length (trace w)) QueryRecord of
        Some msg \<Rightarrow> (Inl (ExternalErr msg), w1)
      | None \<Rightarrow>
          (case row w of
             None \<Rightarrow> (Inl SqlErrNoRows, w1)
           | Some sche \<Rightarrow> (Inr sche, w1)))"

definition initSchemaTable :: "'b env \<Rightarrow> 'b world \<Rightarrow> err option \<times> 'b world" where
  "initSchemaTable env w = db_Exec env CreateTable w"

text \<open>
  \<^verbatim>\<open>getSchemaRecord\<close>: create the table when it is missing, read the row, and insert
  the default row when there is none; the record returned is then the zero value.
\<close>

definition getSchemaRecord :: "'b env \<Rightarrow> 'b world \<Rightarrow> (err + schema) \<times> 'b world" where
  "getSchemaRecord env w =
     (case initSchemaTable env w of
        (Some e, w1) \<Rightarrow> (Inl e, w1)
      | (None, w1) \<Rightarrow>
          (case db_QueryRow env w1 of
             (Inr sche, w2) \<Rightarrow> (Inr sche, w2)
           | (Inl e, w2) \<Rightarrow>
               if e = SqlErrNoRows then
                 (case db_Exec env InsertDefault w2 of
                    (Some e', w3) \<Rightarrow> (Inl e', w3)
                  | (None, w3) \<Rightarrow> (Inr \<lparr>version = 0, dirty = False\<rparr>, w3))
               else (Inl e, w2)))"

subsection \<open>Execution\<close>

text \<open>
  The loop of \<^verbatim>\<open>run\<close>: execute the handler; on failure record its index as dirty and
  return the error of the handler, or the error of the update when the update fails; on
  success record its index as the version and go on.
\<close>

fun run_loop :: "'b env \<Rightarrow> 'b handler list \<Rightarrow> 'b world \<Rightarrow> err option \<times> 'b world" where
  "run_loop env [] w = (None, w)"
| "run_loop env (h # hs) w =
     (let w0 = w\<lparr>trace := trace w @ [Exec h]\<rparr> in
      case handler_Exec env h (biz w0) of
        (Some e, b') \<Rightarrow>
          (case db_Exec env (UpdateDirty (GetIndex h)) (w0\<lparr>biz := b'\<rparr>) of
             (Some innerErr, w2) \<Rightarrow> (Some innerErr, w2)
           | (None, w2) \<Rightarrow> (Some e, w2))
      | (None, b') \<Rightarrow>
          (case db_Exec env (UpdateVersion (GetIndex h)) (w0\<lparr>biz := b'\<rparr>) of
             (Some e, w2) \<Rightarrow> (Some e, w2)
           | (None, w2) \<Rightarrow> run_loop env hs w2))"

definition run :: "'b env \<Rightarrow> 'b migrate \<Rightarrow> 'b world \<Rightarrow> err option \<times> 'b world" where
  "run env m w = run_loop env (handlers m) w"

subsection \<open>Resolution and the whole run\<close>

text \<open>
  The body of the \<^verbatim>\<open>switch\<close> in \<^verbatim>\<open>Run\<close>: the handler of the item at the 0-based
  position \<open>i\<close>, whose index is \<open>i + 1\<close>.
\<close>

definition resolveItem ::
  "'b env \<Rightarrow> string \<Rightarrow> string list \<Rightarrow> (string \<rightharpoonup> 'b method_t) \<Rightarrow> int \<Rightarrow> string
     \<Rightarrow> err + 'b handler" where
  "resolveItem env dir fileNameMap methodMap i item =
     (let ext = path_Ext item in
      if ext = sqlFileExt then
        (if item \<notin> set fileNameMap then Inl (ErrFileNameNotExist item)
         else case getFileContent env (fileJoin dir item) of
           Inl e \<Rightarrow> Inl e
         | Inr sqlContent \<Rightarrow> Inr (newSQLHandler (i + 1) sqlContent))
      else if ext = funcExt then
        (case methodMap item of
           None \<Rightarrow> Inl (ErrFuncNameNotExist item)
         | Some mt \<Rightarrow>
             (case checkMethodFormat mt of
                Some e \<Rightarrow> Inl e
              | None \<Rightarrow> Inr (newGoHandler (i + 1) (method_value mt))))
      else Inl (ErrFileTypeNotSupported item))"

text \<open>
  The loop \<^verbatim>\<open>for i := record.version; i < len(items); i++\<close> of \<^verbatim>\<open>Run\<close>. It appends
  to the handlers of the engine, and what it has appended stays there when a later item
  fails. Reading \<^verbatim>\<open>items[i]\<close> at a negative \<open>i\<close> panics.
\<close>

function buildHandlers ::
  "'b env \<Rightarrow> 'b migrate \<Rightarrow> string list \<Rightarrow> (string \<rightharpoonup> 'b method_t) \<Rightarrow> string list \<Rightarrow> int
     \<Rightarrow> err option \<times> 'b migrate" where
  "buildHandlers env m fileNameMap methodMap items i =
     (if i < int (length items) then
        (if i < 0 then (Some (RuntimePanic ''index out of range''), m)
         else case resolveItem env (schemaDir m) fileNameMap methodMap i (items ! nat i) of
           Inl e \<Rightarrow> (Some e, m)
         | Inr h \<Rightarrow>
             buildHandlers env (m\<lparr>handlers := handlers m @ [h]\<rparr>)
               fileNameMap methodMap items (i + 1))
      else (None, m))"
  by pat_completeness auto
termination
  by (relation "measure (\<lambda>(env, m, fileNameMap, methodMap, items, i).
        nat (int (length items) - i))") auto

declare buildHandlers.simps [simp del]

text \<open>
  \<^verbatim>\<open>Run\<close>. The result is the error returned (\<open>None\<close> for nil), the engine and the
  world as the call leaves them.
\<close>

definition Run ::
  "'b env \<Rightarrow> 'b migrate \<Rightarrow> 'b world \<Rightarrow> err option \<times> 'b migrate \<times> 'b world" where
  "Run env m w =
     (case getSchemaItems env m w of
        (Inl e, w1) \<Rightarrow> (Some e, m, w1)
      | (Inr items, w1) \<Rightarrow>
     (case getMethods m of
        Inl e \<Rightarrow> (Some e, m, w1)
      | Inr methodMap \<Rightarrow>
     (case getFileNames env m of
        Inl e \<Rightarrow> (Some e, m, w1)
      | Inr fileNameMap \<Rightarrow>
     (case checkFileSameAsFunc fileNameMap methodMap of
        Some e \<Rightarrow> (Some e, m, w1)
      | None \<Rightarrow>
     (case getSchemaRecord env w1 of
        (Inl e, w2) \<Rightarrow> (Some e, m, w2)
      | (Inr record, w2) \<Rightarrow>
          if dirty record then (Some (ErrFindDirtyIndex (version record)), m, w2)
          else if int (length items) < version record
            then (Some (ErrSchemaVersionLargeRecord (version record)), m, w2)
          else
            (case buildHandlers env m fileNameMap methodMap items (version record) of
               (Some e, m') \<Rightarrow> (Some e, m', w2)
             | (None, m') \<Rightarrow>
                 (case run env m' w2 of (r, w3) \<Rightarrow> (r, m', w3))))))))"

subsection \<open>Reading a trace\<close>

text \<open>The handlers whose \<^verbatim>\<open>Exec\<close> was called, in the order of the calls.\<close>

fun executed :: "'b event list \<Rightarrow> 'b handler list" where
  "executed [] = []"
| "executed (Exec h # es) = h # executed es"
| "executed (FsMkdirAll p # es) = executed es"
| "executed (FsCreate p # es) = executed es"
| "executed (Db s # es) = executed es"

subsection \<open>A concrete installation\<close>

text \<open>
  An installation to run the definitions on. The business data are the list of the
  statements and calls applied so far. The directory \<^verbatim>\<open>db\<close> holds the list file and
  two SQL files, of which the second does not execute; one object with the method
  \<^verbatim>\<open>Seed\<close> is applied. The list file yields the given tokens.
\<close>

definition demo_seed :: "string list method_t" where
  "demo_seed = \<lparr>method_name = ''Seed'',
     method_value = Func [TContext] [TError] (\<lambda>b. ([RNil], b @ [''Seed'']))\<rparr>"

definition demo_engine :: "string list migrate" where
  "demo_engine = ApplyObjects [[demo_seed]] (NewMigrate [WithSchemaDir ''db''])"

definition demo_env :: "string list \<Rightarrow> string list env" where
  "demo_env tokens =
    \<lparr>os_Open = (\<lambda>p.
        if p = ''db/migrate.txt'' then Inr \<lparr>scan_tokens = tokens, read_all = Inr []\<rparr>
        else if p = ''db/1.sql'' then Inr \<lparr>scan_tokens = [], read_all = Inr ''CREATE''\<rparr>
        else if p = ''db/2.sql'' then Inr \<lparr>scan_tokens = [], read_all = Inr ''BROKEN''\<rparr>
        else Inl OsErrNotExist),
      os_MkdirAll = (\<lambda>p. None),
      os_Create = (\<lambda>p. None),
      os_ReadDir = (\<lambda>p. Inr [\<lparr>entry_Name = ''migrate.txt'', entry_IsDir = False\<rparr>,
                               \<lparr>entry_Name = ''1.sql'', entry_IsDir = False\<rparr>,
                               \<lparr>entry_Name = ''2.sql'', entry_IsDir = False\<rparr>]),
      path_Dir = (\<lambda>p. ''db''),
      db_fault = (\<lambda>t s. None),
      db_BeginTx = (\<lambda>b. None),
      tx_Exec = (\<lambda>q b. if q = ''BROKEN'' then Inl ''syntax error'' else Inr (b @ [q])),
      tx_Commit = (\<lambda>b. None)\<rparr>"

definition demo_world :: "string list world" where
  "demo_world = \<lparr>row = Some \<lparr>version = 0, dirty = False\<rparr>, biz = [], trace = []\<rparr>"

text \<open>
  Variants of the installation: one whose list file does not exist, two handlers that a
  caller registers itself, and two more of which the second fails.
\<close>

definition bare_env :: "string list env" where
  "bare_env = (demo_env [])\<lparr>os_Open := \<lambda>p. Inl OsErrNotExist\<rparr>"



section \<open>Properties\<close>

subsection \<open>The item list\<close>

lemma scanItems_clean:
  "distinct xs \<Longrightarrow> [] \<notin> set xs \<Longrightarrow> set xs \<inter> itemMap = {} \<Longrightarrow>
   scanItems xs index itemMap acc = Inr (acc @ xs)"
  by (induction xs arbitrary: index itemMap acc) auto

lemma scanItems_prefix:
  "distinct pre \<Longrightarrow> [] \<notin> set pre \<Longrightarrow> set pre \<inter> itemMap = {} \<Longrightarrow>
   scanItems (pre @ rest) index itemMap acc =
     scanItems rest (index + int (length pre)) (set pre \<union> itemMap) (acc @ pre)"
  by (induction pre arbitrary: index itemMap acc) (auto simp: algebra_simps)

lemma scanItems_blank:
  assumes "distinct pre" "[] \<notin> set pre"
  shows "scanItems (pre @ [] # y # post) 0 {} [] = Inl (ErrSchemaRecordIsEmpty (int (length pre) + 1))"
  using assms by (simp add: scanItems_prefix)

lemma scanItems_trailing_blank:
  assumes "distinct pre" "[] \<notin> set pre"
  shows "scanItems (pre @ [[]]) 0 {} [] = Inr pre"
  using assms by (simp add: scanItems_prefix)

lemma scanItems_dup:
  assumes "distinct pre" "[] \<notin> set pre" "x \<in> set pre"
  shows "scanItems (pre @ x # post) 0 {} [] = Inl (ErrSchemaItemIsDuplicate x)"
  using assms by (auto simp add: scanItems_prefix)

subsection \<open>The stages of a run\<close>

lemma getSchemaItems_open:
  "os_Open env (fileJoin (schemaDir m) (schemaFile m)) = Inr f \<Longrightarrow>
   getSchemaItems env m w = (scanItems (scan_tokens f) 0 {} [], w)"
  by (simp add: getSchemaItems_def)

lemma db_Exec_cases:
  "db_Exec env s w = (r, w') \<Longrightarrow>
   trace w' = trace w @ [Db s] \<and> biz w' = biz w \<and>
   (case r of None \<Rightarrow> row w' = apply_stmt s (row w) | Some e \<Rightarrow> row w' = row w)"
  by (auto simp: db_Exec_def Let_def split: option.splits)

lemma getSchemaRecord_present:
  assumes "row w = Some r"
    and "db_fault env (length (trace w)) CreateTable = None"
    and "db_fault env (Suc (length (trace w))) QueryRecord = None"
  shows "getSchemaRecord env w = (Inr r, w\<lparr>trace := trace w @ [Db CreateTable, Db QueryRecord]\<rparr>)"
  using assms
  by (simp add: getSchemaRecord_def initSchemaTable_def db_Exec_def db_QueryRow_def)

lemma getSchemaRecord_Inr:
  assumes "getSchemaRecord env w = (Inr r, w2)"
  shows "row w2 = Some r \<and> biz w2 = biz w \<and>
         (row w = Some r \<and> trace w2 = trace w @ [Db CreateTable, Db QueryRecord]
          \<or> row w = None \<and> r = \<lparr>version = 0, dirty = False\<rparr>
              \<and> trace w2 = trace w @ [Db CreateTable, Db QueryRecord, Db InsertDefault])"
  using assms
  by (auto simp: getSchemaRecord_def initSchemaTable_def db_Exec_def db_QueryRow_def Let_def
      split: option.splits if_splits)

lemma getSchemaRecord_dirty:
  assumes "getSchemaRecord env w = (Inr r, w2)" and "dirty r"
  shows "row w = Some r \<and> row w2 = Some r \<and> biz w2 = biz w \<and>
         trace w2 = trace w @ [Db CreateTable, Db QueryRecord]"
  using getSchemaRecord_Inr [OF assms(1)] assms(2) by auto

lemma Run_prelude:
  assumes "getSchemaItems env m w = (Inr items, w1)"
    and "getMethods m = Inr methodMap"
    and "getFileNames env m = Inr fileNameMap"
    and "checkFileSameAsFunc fileNameMap methodMap = None"
    and "getSchemaRecord env w1 = (Inr record, w2)"
  shows "Run env m w =
     (if dirty record then (Some (ErrFindDirtyIndex (version record)), m, w2)
      else if int (length items) < version record
        then (Some (ErrSchemaVersionLargeRecord (version record)), m, w2)
      else
        (case buildHandlers env m fileNameMap methodMap items (version record) of
           (Some e, m') \<Rightarrow> (Some e, m', w2)
         | (None, m') \<Rightarrow> (case run env m' w2 of (r, w3) \<Rightarrow> (r, m', w3))))"
  using assms by (simp add: Run_def)

lemma Run_items_error:
  "getSchemaItems env m w = (Inl e, w1) \<Longrightarrow> Run env m w = (Some e, m, w1)"
  by (simp add: Run_def)

lemma run_loop_append:
  "run_loop env (xs @ ys) w =
     (case run_loop env xs w of
        (None, w') \<Rightarrow> run_loop env ys w'
      | (Some e, w') \<Rightarrow> (Some e, w'))"
  by (induction xs arbitrary: w) (auto simp: Let_def split: prod.splits option.splits)

lemma resolveItem_index:
  "resolveItem env dir fns mm i item = Inr h \<Longrightarrow> GetIndex h = i + 1"
  by (auto simp: resolveItem_def Let_def newSQLHandler_def newGoHandler_def
      split: if_splits sum.splits option.splits)

lemma buildHandlers_resolved:
  assumes "0 \<le> i"
    and "map (\<lambda>k. resolveItem env (schemaDir m) fns mm (int k) (items ! k))
           [nat i..<length items] = map Inr chain"
  shows "buildHandlers env m fns mm items i = (None, m\<lparr>handlers := handlers m @ chain\<rparr>)"
  using assms
proof (induction env m fns mm items i arbitrary: chain rule: buildHandlers.induct)
  case (1 env m fns mm items i)
  show ?case
  proof (cases "i < int (length items)")
    case False
    with "1.prems" have "chain = []" by simp
    with False show ?thesis by (simp add: buildHandlers.simps)
  next
    case True
    with "1.prems" have lt: "nat i < length items" by simp
    then have up: "[nat i..<length items] = nat i # [nat (i + 1)..<length items]"
      using "1.prems"(1) by (simp add: upt_conv_Cons nat_add_distrib)
    from "1.prems"(2) up obtain h rest where
      ch: "chain = h # rest"
      and h: "resolveItem env (schemaDir m) fns mm i (items ! nat i) = Inr h"
      and rest: "map (\<lambda>k. resolveItem env (schemaDir m) fns mm (int k) (items ! k))
                   [nat (i + 1)..<length items] = map Inr rest"
      using "1.prems"(1) by (cases chain) auto
    have "buildHandlers env (m\<lparr>handlers := handlers m @ [h]\<rparr>) fns mm items (i + 1)
          = (None, (m\<lparr>handlers := handlers m @ [h]\<rparr>)
                     \<lparr>handlers := handlers (m\<lparr>handlers := handlers m @ [h]\<rparr>) @ rest\<rparr>)"
      using "1.IH" [OF True _ h, of rest] "1.prems"(1) True rest by simp
    then show ?thesis
      using True "1.prems"(1) h ch
      by (subst buildHandlers.simps) simp
  qed
qed

lemma executed_append: "executed (xs @ ys) = executed xs @ executed ys"
  by (induction xs rule: executed.induct) auto

lemma getSchemaItems_world:
  assumes "getSchemaItems env m w = (r, w1)"
  shows "row w1 = row w \<and> biz w1 = biz w \<and> executed (trace w1) = executed (trace w)"
  using assms
  by (auto simp: getSchemaItems_def Let_def executed_append split: sum.splits if_splits option.splits)

lemma getSchemaRecord_world:
  assumes "getSchemaRecord env w = (r, w2)"
  shows "biz w2 = biz w \<and> executed (trace w2) = executed (trace w)"
  using assms
  by (auto simp: getSchemaRecord_def initSchemaTable_def db_Exec_def db_QueryRow_def Let_def
      executed_append split: option.splits if_splits)

lemma db_Exec_update_defined:
  "db_Exec env s w = (r, w') \<Longrightarrow> s = UpdateVersion v \<or> s = UpdateDirty v \<Longrightarrow>
   (row w' = None) = (row w = None)"
  by (auto simp: db_Exec_def Let_def split: option.splits)

lemma apply_stmt_UpdateVersion:
  "apply_stmt (UpdateVersion v) = map_option (\<lambda>old. old\<lparr>version := v\<rparr>)"
  by (rule ext) simp

lemma run_loop_steps_succeed:
  assumes "\<forall>k<length hs. fst (handler_Exec env (hs ! k)
              (fold (\<lambda>h b. snd (handler_Exec env h b)) (take k hs) (biz w))) = None"
    and "\<forall>t s. db_fault env t s = None"
  shows "run_loop env hs w =
     (None, w\<lparr>row := fold (\<lambda>h. apply_stmt (UpdateVersion (GetIndex h))) hs (row w),
             biz := fold (\<lambda>h b. snd (handler_Exec env h b)) hs (biz w),
             trace := trace w @ concat (map (\<lambda>h. [Exec h, Db (UpdateVersion (GetIndex h))]) hs)\<rparr>)"
  using assms
proof (induction hs arbitrary: w)
  case Nil
  then show ?case by simp
next
  case (Cons h hs)
  from Cons.prems(1) have "fst (handler_Exec env h (biz w)) = None"
    by fastforce
  then obtain b' where hx: "handler_Exec env h (biz w) = (None, b')"
    by (metis prod.collapse)
  have rest: "\<forall>k<length hs. fst (handler_Exec env (hs ! k)
              (fold (\<lambda>h b. snd (handler_Exec env h b)) (take k hs) b')) = None"
  proof (intro allI impI)
    fix k assume "k < length hs"
    then have "Suc k < length (h # hs)" by simp
    from Cons.prems(1) [rule_format, OF this] hx show
      "fst (handler_Exec env (hs ! k)
              (fold (\<lambda>h b. snd (handler_Exec env h b)) (take k hs) b')) = None"
      by simp
  qed
  have later: "run_loop env hs w' =
     (None, w'\<lparr>row := fold (\<lambda>h. apply_stmt (UpdateVersion (GetIndex h))) hs (row w'),
             biz := fold (\<lambda>h b. snd (handler_Exec env h b)) hs (biz w'),
             trace := trace w' @ concat (map (\<lambda>h. [Exec h, Db (UpdateVersion (GetIndex h))]) hs)\<rparr>)"
    if "biz w' = b'" for w'
  proof -
    from rest that have "\<forall>k<length hs. fst (handler_Exec env (hs ! k)
              (fold (\<lambda>h b. snd (handler_Exec env h b)) (take k hs) (biz w'))) = None"
      by simp
    from Cons.IH [OF this Cons.prems(2)] show ?thesis .
  qed
  show ?case
    using hx Cons.prems(2) later by (simp add: db_Exec_def Let_def apply_stmt_UpdateVersion)
qed

lemma fold_UpdateVersion:
  "hs \<noteq> [] \<Longrightarrow>
   fold (\<lambda>h. apply_stmt (UpdateVersion (GetIndex h))) hs (Some r)
     = Some (r\<lparr>version := GetIndex (last hs)\<rparr>)"
proof (induction hs arbitrary: r)
  case Nil
  then show ?case by simp
next
  case (Cons h hs)
  then show ?case by (cases "hs = []") auto
qed

lemma run_loop_row_defined:
  "run_loop env hs w = (r, w') \<Longrightarrow> (row w' = None) = (row w = None)"
proof (induction hs arbitrary: w)
  case Nil
  then show ?case by simp
next
  case (Cons h hs)
  obtain res b' where hx: "handler_Exec env h (biz w) = (res, b')"
    by fastforce
  let ?w0 = "w\<lparr>trace := trace w @ [Exec h], biz := b'\<rparr>"
  show ?case
  proof (cases res)
    case (Some e)
    obtain r2 w2 where d: "db_Exec env (UpdateDirty (GetIndex h)) ?w0 = (r2, w2)"
      by fastforce
    have "w' = w2"
      using Cons.prems hx Some d by (simp add: Let_def split: option.splits)
    with db_Exec_update_defined [OF d] show ?thesis by simp
  next
    case None
    obtain r2 w2 where d: "db_Exec env (UpdateVersion (GetIndex h)) ?w0 = (r2, w2)"
      by fastforce
    have rw: "(row w2 = None) = (row w = None)"
      using db_Exec_update_defined [OF d] by simp
    show ?thesis
    proof (cases r2)
      case (Some e)
      then have "w' = w2"
        using Cons.prems hx None d by (simp add: Let_def)
      with rw show ?thesis by simp
    next
      case ok: None
      then have "run_loop env hs w2 = (r, w')"
        using Cons.prems hx None d by (simp add: Let_def)
      from Cons.IH [OF this] rw show ?thesis by simp
    qed
  qed
qed

lemma run_loop_executed:
  "run_loop env hs w = (r, w') \<Longrightarrow>
   \<exists>ran. executed (trace w') = executed (trace w) @ ran \<and> prefix ran hs
      \<and> (r = None \<longrightarrow> ran = hs)"
proof (induction hs arbitrary: w)
  case Nil
  then show ?case by simp
next
  case (Cons h hs)
  obtain res b' where hx: "handler_Exec env h (biz w) = (res, b')"
    by fastforce
  let ?w0 = "w\<lparr>trace := trace w @ [Exec h], biz := b'\<rparr>"
  show ?case
  proof (cases res)
    case (Some e)
    obtain r2 w2 where d: "db_Exec env (UpdateDirty (GetIndex h)) ?w0 = (r2, w2)"
      by fastforce
    have "w' = w2" and "r \<noteq> None"
      using Cons.prems hx Some d by (auto simp: Let_def split: option.splits)
    moreover have "executed (trace w2) = executed (trace w) @ [h]"
      using db_Exec_cases [OF d] by (simp add: executed_append)
    ultimately show ?thesis by auto
  next
    case None
    obtain r2 w2 where d: "db_Exec env (UpdateVersion (GetIndex h)) ?w0 = (r2, w2)"
      by fastforce
    have ex2: "executed (trace w2) = executed (trace w) @ [h]"
      using db_Exec_cases [OF d] by (simp add: executed_append)
    show ?thesis
    proof (cases r2)
      case (Some e)
      then have "w' = w2" and "r \<noteq> None"
        using Cons.prems hx None d by (auto simp: Let_def)
      with ex2 show ?thesis by auto
    next
      case ok: None
      then have "run_loop env hs w2 = (r, w')"
        using Cons.prems hx None d by (simp add: Let_def)
      from Cons.IH [OF this] ex2 show ?thesis by auto
    qed
  qed
qed

lemma buildHandlers_extends:
  "buildHandlers env m fns mm items i = (r, m') \<Longrightarrow>
   \<exists>chain. m' = m\<lparr>handlers := handlers m @ chain\<rparr>"
proof (induction env m fns mm items i arbitrary: r m' rule: buildHandlers.induct)
  case (1 env m fns mm items i)
  show ?case
  proof (cases "i < int (length items) \<and> \<not> i < 0")
    case False
    with "1.prems" have "m' = m"
      by (subst (asm) buildHandlers.simps) (auto split: if_splits)
    then show ?thesis by (intro exI [of _ "[]"]) simp
  next
    case True
    show ?thesis
    proof (cases "resolveItem env (schemaDir m) fns mm i (items ! nat i)")
      case (Inl e)
      with True "1.prems" have "m' = m"
        by (subst (asm) buildHandlers.simps) auto
      then show ?thesis by (intro exI [of _ "[]"]) simp
    next
      case (Inr h)
      with True "1.prems" have
        "buildHandlers env (m\<lparr>handlers := handlers m @ [h]\<rparr>) fns mm items (i + 1) = (r, m')"
        by (subst (asm) buildHandlers.simps) auto
      from "1.IH" [OF _ _ Inr this] True obtain chain where
        "m' = (m\<lparr>handlers := handlers m @ [h]\<rparr>)
                \<lparr>handlers := handlers (m\<lparr>handlers := handlers m @ [h]\<rparr>) @ chain\<rparr>"
        by auto
      then show ?thesis by (intro exI [of _ "h # chain"]) simp
    qed
  qed
qed

text \<open>\<^verbatim>\<open>Run\<close> only ever appends to the handlers of the engine.\<close>

lemma Run_keeps_handlers:
  assumes "Run env m w = (r, m', w')"
  shows "prefix (handlers m) (handlers m')"
proof -
  have "m' = m \<or> (\<exists>fns mm items i res. buildHandlers env m fns mm items i = (res, m'))"
    using assms
    by (auto simp: Run_def split: prod.splits sum.splits option.splits if_splits)
  then show ?thesis
  proof
    assume "m' = m"
    then show ?thesis by simp
  next
    assume "\<exists>fns mm items i res. buildHandlers env m fns mm items i = (res, m')"
    then obtain fns mm items i res where "buildHandlers env m fns mm items i = (res, m')"
      by blast
    from buildHandlers_extends [OF this] show ?thesis
      by auto
  qed
qed

lemma buildHandlers_at_end:
  "buildHandlers env m fns mm items (int (length items)) = (None, m)"
  by (subst buildHandlers.simps) simp

lemma resolved_chain_facts:
  assumes "map (\<lambda>k. resolveItem env dir fns mm (int k) (items ! k)) [0..<length items]
             = map Inr chain"
  shows "length chain = length items"
    and "map GetIndex chain = [1..int (length items)]"
proof -
  show len: "length chain = length items"
    using arg_cong [OF assms, of length] by simp
  have nth: "resolveItem env dir fns mm (int k) (items ! k) = Inr (chain ! k)"
    if "k < length items" for k
    using arg_cong [OF assms, of "\<lambda>xs. xs ! k"] that len by simp
  show "map GetIndex chain = [1..int (length items)]"
  proof (rule nth_equalityI)
    show "length (map GetIndex chain) = length [1..int (length items)]"
      using len by simp
  next
    fix k assume "k < length (map GetIndex chain)"
    then have k: "k < length items" using len by simp
    from resolveItem_index [OF nth [OF k]] k len
    show "map GetIndex chain ! k = [1..int (length items)] ! k"
      by simp
  qed
qed





subsection \<open>Evaluation on the concrete installation\<close>

lemmas demo_defs = demo_seed_def demo_engine_def demo_env_def demo_world_def
  ApplyObjects_def NewMigrate_def WithSchemaDir_def defaultSchemaDir_def defaultSchemaFile_def
  defaultSchemaTableName_def fileJoin_def

lemmas exec_defs = getMethods_def getFileNames_def resolveItem_def path_Ext_def sqlFileExt_def funcExt_def
  getFileContent_def checkMethodFormat_def newSQLHandler_def newGoHandler_def
  sqlHandler_Exec_def goHandler_Exec_def

lemmas run_defs = Run_def getSchemaItems_def getSchemaRecord_def initSchemaTable_def
  db_Exec_def db_QueryRow_def run_def buildHandlers.simps

section \<open>The claims\<close>

subsection \<open>C1: a first run applies every step\<close>

text \<open>
  C1, as amended. The list file yields \<open>N\<close> lines, all different and none blank; every
  line resolves to a handler; the stored row is \<open>(0, false)\<close>; the engine holds no handler;
  every step succeeds on the business data that the steps before it have left, and every
  statement on the schema table succeeds. Then one \<^verbatim>\<open>Run\<close> returns no error, has
  executed the \<open>N\<close> handlers once each in the order of the list, the update of the
  version to \<open>i\<close> standing between the execution of step \<open>i\<close> and that of step
  \<open>i + 1\<close>, and leaves the row \<open>(N, false)\<close>. The handlers carry the indices
  \<open>1, \<dots>, N\<close>.
\<close>

theorem run_fresh_applies_all:
  assumes opened: "os_Open env (fileJoin (schemaDir m) (schemaFile m)) = Inr f"
    and unique: "distinct (scan_tokens f)"
    and no_blank: "[] \<notin> set (scan_tokens f)"
    and methods: "getMethods m = Inr methodMap"
    and files: "getFileNames env m = Inr fileNameMap"
    and no_clash: "checkFileSameAsFunc fileNameMap methodMap = None"
    and resolvable:
      "map (\<lambda>k. resolveItem env (schemaDir m) fileNameMap methodMap (int k) (scan_tokens f ! k))
         [0..<length (scan_tokens f)] = map Inr chain"
    and fresh_state: "row w = Some \<lparr>version = 0, dirty = False\<rparr>"
    and fresh_engine: "handlers m = []"
    and steps_succeed:
      "\<forall>k<length chain. fst (handler_Exec env (chain ! k)
          (fold (\<lambda>h b. snd (handler_Exec env h b)) (take k chain) (biz w))) = None"
    and store_ok: "\<forall>t s. db_fault env t s = None"
  shows "Run env m w =
     (None, m\<lparr>handlers := chain\<rparr>,
      w\<lparr>row := Some \<lparr>version = int (length (scan_tokens f)), dirty = False\<rparr>,
        biz := fold (\<lambda>h b. snd (handler_Exec env h b)) chain (biz w),
        trace := trace w @ [Db CreateTable, Db QueryRecord]
                   @ concat (map (\<lambda>h. [Exec h, Db (UpdateVersion (GetIndex h))]) chain)\<rparr>)
     \<and> length chain = length (scan_tokens f)
     \<and> map GetIndex chain = [1..int (length (scan_tokens f))]"
proof -
  let ?items = "scan_tokens f"
  let ?w2 = "w\<lparr>trace := trace w @ [Db CreateTable, Db QueryRecord]\<rparr>"
  have items: "getSchemaItems env m w = (Inr ?items, w)"
    using getSchemaItems_open [OF opened] scanItems_clean [OF unique no_blank, of "{}" 0 "[]"]
    by simp
  have rec: "getSchemaRecord env w = (Inr \<lparr>version = 0, dirty = False\<rparr>, ?w2)"
    using getSchemaRecord_present [OF fresh_state] store_ok by simp
  have build: "buildHandlers env m fileNameMap methodMap ?items 0 = (None, m\<lparr>handlers := chain\<rparr>)"
    using buildHandlers_resolved [of 0 env m fileNameMap methodMap ?items chain]
      resolvable fresh_engine by simp
  have len: "length chain = length ?items"
    and idx: "map GetIndex chain = [1..int (length ?items)]"
    using resolved_chain_facts [OF resolvable] by simp_all
  have rowfold: "fold (\<lambda>h. apply_stmt (UpdateVersion (GetIndex h))) chain
                   (Some \<lparr>version = 0, dirty = False\<rparr>)
                 = Some \<lparr>version = int (length ?items), dirty = False\<rparr>"
  proof (cases "chain = []")
    case True
    with len show ?thesis by simp
  next
    case False
    then have "GetIndex (last chain) = last (map GetIndex chain)"
      by (simp add: last_map)
    also have "\<dots> = int (length ?items)"
    proof -
      have "1 \<le> int (length ?items)"
        using False len by (cases chain) auto
      then have "[1..int (length ?items)] = [1..int (length ?items) - 1] @ [int (length ?items)]"
        by (rule upto_rec2)
      then have "last [1..int (length ?items)] = int (length ?items)"
        by simp
      with idx show ?thesis by simp
    qed
    finally show ?thesis
      using fold_UpdateVersion [OF False, of "\<lparr>version = 0, dirty = False\<rparr>"] by simp
  qed
  have exec: "run env (m\<lparr>handlers := chain\<rparr>) ?w2 =
     (None, w\<lparr>row := Some \<lparr>version = int (length ?items), dirty = False\<rparr>,
        biz := fold (\<lambda>h b. snd (handler_Exec env h b)) chain (biz w),
        trace := trace w @ [Db CreateTable, Db QueryRecord]
                   @ concat (map (\<lambda>h. [Exec h, Db (UpdateVersion (GetIndex h))]) chain)\<rparr>)"
  proof -
    have "\<forall>k<length chain. fst (handler_Exec env (chain ! k)
          (fold (\<lambda>h b. snd (handler_Exec env h b)) (take k chain) (biz ?w2))) = None"
      using steps_succeed by simp
    from run_loop_steps_succeed [OF this store_ok] rowfold fresh_state show ?thesis
      by (simp add: run_def)
  qed
  show ?thesis
    using Run_prelude [OF items methods files no_clash rec] build exec len idx
    by simp
qed

text \<open>The theorem on a list of one SQL file and one method.\<close>

theorem run_fresh_applies_all_witness:
  "Run (demo_env [''1.sql'', ''Seed'']) demo_engine demo_world =
     (None,
      demo_engine\<lparr>handlers := [SqlHandler 1 ''CREATE'', GoHandler 2 (method_value demo_seed)]\<rparr>,
      \<lparr>row = Some \<lparr>version = 2, dirty = False\<rparr>,
       biz = [''CREATE'', ''Seed''],
       trace = [Db CreateTable, Db QueryRecord,
                Exec (SqlHandler 1 ''CREATE''), Db (UpdateVersion 1),
                Exec (GoHandler 2 (method_value demo_seed)), Db (UpdateVersion 2)]\<rparr>)"
  using run_fresh_applies_all [of "demo_env [''1.sql'', ''Seed'']" demo_engine
      "\<lparr>scan_tokens = [''1.sql'', ''Seed''], read_all = Inr []\<rparr>"
      "[''Seed'' \<mapsto> demo_seed]" "[''migrate.txt'', ''1.sql'', ''2.sql'']"
      "[SqlHandler 1 ''CREATE'', GoHandler 2 (method_value demo_seed)]" demo_world]
  by (simp add: demo_defs exec_defs upt_conv_Cons All_less_Suc)

text \<open>
  Without the two last conditions the claim fails: a step that resolves may fail when it
  is executed, and the update of the version may fail after a step has succeeded.
\<close>

theorem failing_step_counterexample:
  "Run (demo_env [''2.sql'']) demo_engine demo_world =
     (Some (ErrQueryWithIndex ''syntax error'' 1),
      demo_engine\<lparr>handlers := [SqlHandler 1 ''BROKEN'']\<rparr>,
      \<lparr>row = Some \<lparr>version = 1, dirty = True\<rparr>, biz = [],
       trace = [Db CreateTable, Db QueryRecord,
                Exec (SqlHandler 1 ''BROKEN''), Db (UpdateDirty 1)]\<rparr>)
   \<and> Run ((demo_env [''1.sql''])\<lparr>db_fault := \<lambda>t s. if s = UpdateVersion 1 then Some ''gone'' else None\<rparr>)
        demo_engine demo_world =
     (Some (ExternalErr ''gone''),
      demo_engine\<lparr>handlers := [SqlHandler 1 ''CREATE'']\<rparr>,
      \<lparr>row = Some \<lparr>version = 0, dirty = False\<rparr>, biz = [''CREATE''],
       trace = [Db CreateTable, Db QueryRecord,
                Exec (SqlHandler 1 ''CREATE''), Db (UpdateVersion 1)]\<rparr>)"
  by (simp add: demo_defs exec_defs run_defs)

subsection \<open>C2: a second run on the same engine\<close>

text \<open>
  C2 says that a second \<^verbatim>\<open>Run\<close> on an engine whose first \<^verbatim>\<open>Run\<close> succeeded executes
  nothing and leaves the row as it is; the README of the package says the same of the
  recorded history (it is kept so that nothing is executed twice), and the loop of
  \<^verbatim>\<open>Run\<close> starts at the recorded version for that purpose. But \<^verbatim>\<open>Run\<close> appends
  the handlers it resolves to the handlers of the engine and never removes them
  (\<open>Run_keeps_handlers\<close>), so the
  second call resolves nothing new and then executes the handlers of the first call
  again. On the installation with the one item \<^verbatim>\<open>1.sql\<close>: the first run applies the
  statement; the second run, started on the engine and the world that the first has
  left, applies it once more; and where the database refuses a statement that has been
  applied before, the second run fails and leaves the row dirty.
\<close>

theorem second_run_executes_again:
  "Run (demo_env [''1.sql'']) demo_engine demo_world =
     (None,
      demo_engine\<lparr>handlers := [SqlHandler 1 ''CREATE'']\<rparr>,
      \<lparr>row = Some \<lparr>version = 1, dirty = False\<rparr>, biz = [''CREATE''],
       trace = [Db CreateTable, Db QueryRecord,
                Exec (SqlHandler 1 ''CREATE''), Db (UpdateVersion 1)]\<rparr>)
   \<and> Run (demo_env [''1.sql''])
        (demo_engine\<lparr>handlers := [SqlHandler 1 ''CREATE'']\<rparr>)
        \<lparr>row = Some \<lparr>version = 1, dirty = False\<rparr>, biz = [''CREATE''],
         trace = [Db CreateTable, Db QueryRecord,
                  Exec (SqlHandler 1 ''CREATE''), Db (UpdateVersion 1)]\<rparr> =
     (None,
      demo_engine\<lparr>handlers := [SqlHandler 1 ''CREATE'']\<rparr>,
      \<lparr>row = Some \<lparr>version = 1, dirty = False\<rparr>, biz = [''CREATE'', ''CREATE''],
       trace = [Db CreateTable, Db QueryRecord,
                Exec (SqlHandler 1 ''CREATE''), Db (UpdateVersion 1),
                Db CreateTable, Db QueryRecord,
                Exec (SqlHandler 1 ''CREATE''), Db (UpdateVersion 1)]\<rparr>)
   \<and> Run ((demo_env [''1.sql''])\<lparr>tx_Exec := \<lambda>q b.
            if q \<in> set b then Inl ''already exists'' else Inr (b @ [q])\<rparr>)
        (demo_engine\<lparr>handlers := [SqlHandler 1 ''CREATE'']\<rparr>)
        \<lparr>row = Some \<lparr>version = 1, dirty = False\<rparr>, biz = [''CREATE''],
         trace = [Db CreateTable, Db QueryRecord,
                  Exec (SqlHandler 1 ''CREATE''), Db (UpdateVersion 1)]\<rparr> =
     (Some (ErrQueryWithIndex ''already exists'' 1),
      demo_engine\<lparr>handlers := [SqlHandler 1 ''CREATE'']\<rparr>,
      \<lparr>row = Some \<lparr>version = 1, dirty = True\<rparr>, biz = [''CREATE''],
       trace = [Db CreateTable, Db QueryRecord,
                Exec (SqlHandler 1 ''CREATE''), Db (UpdateVersion 1),
                Db CreateTable, Db QueryRecord,
                Exec (SqlHandler 1 ''CREATE''), Db (UpdateDirty 1)]\<rparr>)"
  by (simp add: demo_defs exec_defs run_defs)

subsection \<open>C3: the first step that fails\<close>

text \<open>
  C3. The handlers of the engine are \<open>pre @ h # post\<close>; the handlers of \<open>pre\<close> run
  through without an error, and \<^verbatim>\<open>Exec\<close> of \<open>h\<close> returns the error \<open>e\<close>. Then
  \<^verbatim>\<open>run\<close> sends the update to \<open>(GetIndex h, dirty)\<close> right after the execution of
  \<open>h\<close> and nothing after it, the handlers executed are those of \<open>pre\<close> and \<open>h\<close>,
  none of \<open>post\<close>, and when the update succeeds the call returns \<open>e\<close> itself and the
  stored row is \<open>(GetIndex h, true)\<close>. For a handler resolved from the item list
  \<open>GetIndex h\<close> is the ordinal of its item (\<open>resolveItem_index\<close>).
\<close>

theorem run_first_failure:
  assumes chain: "handlers m = pre @ h # post"
    and before: "run_loop env pre w = (None, w1)"
    and fails: "handler_Exec env h (biz w1) = (Some e, b')"
  shows "trace (snd (run env m w)) = trace w1 @ [Exec h, Db (UpdateDirty (GetIndex h))]
     \<and> executed (trace (snd (run env m w))) = executed (trace w) @ pre @ [h]
     \<and> (db_fault env (Suc (length (trace w1))) (UpdateDirty (GetIndex h)) = None \<longrightarrow>
          fst (run env m w) = Some e
          \<and> row (snd (run env m w)) =
              (if row w = None then None else Some \<lparr>version = GetIndex h, dirty = True\<rparr>))"
proof -
  let ?w0 = "w1\<lparr>trace := trace w1 @ [Exec h], biz := b'\<rparr>"
  obtain r2 w2 where d: "db_Exec env (UpdateDirty (GetIndex h)) ?w0 = (r2, w2)"
    by fastforce
  have step: "run_loop env (h # post) w1 = (if r2 = None then Some e else r2, w2)"
    using fails d by (auto simp: Let_def split: option.splits)
  have whole: "run env m w = (if r2 = None then Some e else r2, w2)"
    using chain before step by (simp add: run_def run_loop_append)
  have tr: "trace w2 = trace w1 @ [Exec h, Db (UpdateDirty (GetIndex h))]"
    using db_Exec_cases [OF d] by simp
  from run_loop_executed [OF before] have ex1: "executed (trace w1) = executed (trace w) @ pre"
    by auto
  have ex: "executed (trace w2) = executed (trace w) @ pre @ [h]"
    using tr ex1 by (simp add: executed_append)
  have defined: "(row w1 = None) = (row w = None)"
    by (rule run_loop_row_defined [OF before])
  have ok: "r2 = None \<and> row w2 = (if row w = None then None
              else Some \<lparr>version = GetIndex h, dirty = True\<rparr>)"
    if "db_fault env (Suc (length (trace w1))) (UpdateDirty (GetIndex h)) = None"
    using d that defined by (auto simp: db_Exec_def Let_def)
  show ?thesis
    using whole tr ex ok by simp
qed

text \<open>Three handlers of which the second fails.\<close>

theorem run_first_failure_witness:
  "fst (run (demo_env []) (AddHandlers [SqlHandler 1 ''CREATE'', SqlHandler 2 ''BROKEN'',
          SqlHandler 3 ''INSERT''] demo_engine) demo_world)
     = Some (ErrQueryWithIndex ''syntax error'' 2)
   \<and> row (snd (run (demo_env []) (AddHandlers [SqlHandler 1 ''CREATE'', SqlHandler 2 ''BROKEN'',
          SqlHandler 3 ''INSERT''] demo_engine) demo_world))
     = Some \<lparr>version = 2, dirty = True\<rparr>
   \<and> trace (snd (run (demo_env []) (AddHandlers [SqlHandler 1 ''CREATE'', SqlHandler 2 ''BROKEN'',
          SqlHandler 3 ''INSERT''] demo_engine) demo_world))
     = [Exec (SqlHandler 1 ''CREATE''), Db (UpdateVersion 1),
        Exec (SqlHandler 2 ''BROKEN''), Db (UpdateDirty 2)]"
proof -
  let ?m = "AddHandlers [SqlHandler 1 ''CREATE'', SqlHandler 2 ''BROKEN'',
        SqlHandler 3 ''INSERT''] demo_engine"
  let ?w1 = "\<lparr>row = Some \<lparr>version = 1, dirty = False\<rparr>, biz = [''CREATE''],
       trace = [Exec (SqlHandler 1 ''CREATE''), Db (UpdateVersion 1)]\<rparr> :: string list world"
  have a: "handlers ?m = [SqlHandler 1 ''CREATE''] @ SqlHandler 2 ''BROKEN'' # [SqlHandler 3 ''INSERT'']"
    by (simp add: AddHandlers_def demo_defs)
  have b: "run_loop (demo_env []) [SqlHandler 1 ''CREATE''] demo_world = (None, ?w1)"
    by (simp add: demo_defs exec_defs db_Exec_def)
  have c: "handler_Exec (demo_env []) (SqlHandler 2 ''BROKEN'') (biz ?w1)
             = (Some (ErrQueryWithIndex ''syntax error'' 2), [''CREATE''])"
    by (simp add: demo_defs exec_defs)
  have d: "db_fault (demo_env []) (Suc (length (trace ?w1))) (UpdateDirty 2) = None"
    by (simp add: demo_defs)
  have e: "row demo_world \<noteq> None"
    by (simp add: demo_defs)
  from run_first_failure [OF a b c] d e show ?thesis
    by simp
qed

subsection \<open>C4: a dirty record\<close>

text \<open>
  C4. The run has passed the checks of the list, the methods and the files and has read
  the record, and the record is dirty. Then \<^verbatim>\<open>Run\<close> returns the error that cites the
  version of the record, which is the row stored before the call; the row and the
  business data are as before the call, and no handler has been executed.
\<close>

theorem dirty_record_stops_run:
  assumes items: "getSchemaItems env m w = (Inr items, w1)"
    and methods: "getMethods m = Inr methodMap"
    and files: "getFileNames env m = Inr fileNameMap"
    and no_clash: "checkFileSameAsFunc fileNameMap methodMap = None"
    and rd: "getSchemaRecord env w1 = (Inr record, w2)"
    and is_dirty: "dirty record"
  shows "Run env m w = (Some (ErrFindDirtyIndex (version record)), m, w2)
     \<and> row w = Some record \<and> row w2 = row w \<and> biz w2 = biz w
     \<and> executed (trace w2) = executed (trace w)"
proof -
  from getSchemaItems_world [OF items]
  have a: "row w1 = row w" "biz w1 = biz w" "executed (trace w1) = executed (trace w)"
    by simp_all
  from getSchemaRecord_dirty [OF rd is_dirty]
  have b: "row w1 = Some record" "row w2 = Some record" "biz w2 = biz w1"
    "trace w2 = trace w1 @ [Db CreateTable, Db QueryRecord]"
    by simp_all
  show ?thesis
    using Run_prelude [OF items methods files no_clash rd] is_dirty a b
    by (simp add: executed_append)
qed

text \<open>A row left dirty at version 1.\<close>

theorem dirty_record_stops_run_witness:
  "Run (demo_env [''1.sql'', ''Seed'']) demo_engine
     (demo_world\<lparr>row := Some \<lparr>version = 1, dirty = True\<rparr>\<rparr>) =
     (Some (ErrFindDirtyIndex 1), demo_engine,
      \<lparr>row = Some \<lparr>version = 1, dirty = True\<rparr>, biz = [],
       trace = [Db CreateTable, Db QueryRecord]\<rparr>)"
  using dirty_record_stops_run [of "demo_env [''1.sql'', ''Seed'']" demo_engine
      "demo_world\<lparr>row := Some \<lparr>version = 1, dirty = True\<rparr>\<rparr>"
      "[''1.sql'', ''Seed'']" "demo_world\<lparr>row := Some \<lparr>version = 1, dirty = True\<rparr>\<rparr>"
      "[''Seed'' \<mapsto> demo_seed]" "[''migrate.txt'', ''1.sql'', ''2.sql'']"
      "\<lparr>version = 1, dirty = True\<rparr>"
      "\<lparr>row = Some \<lparr>version = 1, dirty = True\<rparr>, biz = [],
        trace = [Db CreateTable, Db QueryRecord]\<rparr>"]
  by (simp add: demo_defs exec_defs getSchemaItems_def getSchemaRecord_def initSchemaTable_def
      db_Exec_def db_QueryRow_def)

subsection \<open>C5: the stored version against the number of items\<close>

text \<open>
  C5, as amended. The run has passed the checks and has read the record. When the version
  of the record exceeds the number of items, \<^verbatim>\<open>Run\<close> returns an error that cites the
  version (the dirty error when the record is dirty, the version error otherwise) and no
  handler has been executed. When the version equals the number of items, the record is
  not dirty and the engine holds no handler, \<^verbatim>\<open>Run\<close> resolves nothing, executes nothing
  and returns no error.
\<close>

theorem version_against_item_count:
  assumes items: "getSchemaItems env m w = (Inr items, w1)"
    and methods: "getMethods m = Inr methodMap"
    and files: "getFileNames env m = Inr fileNameMap"
    and no_clash: "checkFileSameAsFunc fileNameMap methodMap = None"
    and rd: "getSchemaRecord env w1 = (Inr record, w2)"
  shows "(int (length items) < version record \<longrightarrow>
            Run env m w =
              (Some (if dirty record then ErrFindDirtyIndex (version record)
                     else ErrSchemaVersionLargeRecord (version record)), m, w2)
            \<and> biz w2 = biz w \<and> executed (trace w2) = executed (trace w))
     \<and> (version record = int (length items) \<and> \<not> dirty record \<and> handlers m = [] \<longrightarrow>
            Run env m w = (None, m, w2)
            \<and> row w2 = Some record \<and> biz w2 = biz w
            \<and> executed (trace w2) = executed (trace w))"
proof -
  from getSchemaItems_world [OF items] getSchemaRecord_world [OF rd]
  have same: "biz w2 = biz w" "executed (trace w2) = executed (trace w)"
    by simp_all
  from getSchemaRecord_Inr [OF rd] have stored: "row w2 = Some record"
    by simp
  have noop: "Run env m w = (None, m, w2)"
    if "version record = int (length items)" "\<not> dirty record" "handlers m = []"
    using Run_prelude [OF items methods files no_clash rd] that
    by (simp add: buildHandlers_at_end run_def)
  show ?thesis
    using Run_prelude [OF items methods files no_clash rd] same stored noop
    by simp
qed

text \<open>One item, with the stored versions 2 and 1.\<close>

theorem version_against_item_count_witness:
  "Run (demo_env [''1.sql'']) demo_engine
     (demo_world\<lparr>row := Some \<lparr>version = 2, dirty = False\<rparr>\<rparr>) =
     (Some (ErrSchemaVersionLargeRecord 2), demo_engine,
      \<lparr>row = Some \<lparr>version = 2, dirty = False\<rparr>, biz = [],
       trace = [Db CreateTable, Db QueryRecord]\<rparr>)
   \<and> Run (demo_env [''1.sql'']) demo_engine
     (demo_world\<lparr>row := Some \<lparr>version = 1, dirty = False\<rparr>\<rparr>) =
     (None, demo_engine,
      \<lparr>row = Some \<lparr>version = 1, dirty = False\<rparr>, biz = [],
       trace = [Db CreateTable, Db QueryRecord]\<rparr>)"
  using version_against_item_count [of "demo_env [''1.sql'']" demo_engine
      "demo_world\<lparr>row := Some \<lparr>version = 2, dirty = False\<rparr>\<rparr>"
      "[''1.sql'']" "demo_world\<lparr>row := Some \<lparr>version = 2, dirty = False\<rparr>\<rparr>"
      "[''Seed'' \<mapsto> demo_seed]" "[''migrate.txt'', ''1.sql'', ''2.sql'']"
      "\<lparr>version = 2, dirty = False\<rparr>"
      "\<lparr>row = Some \<lparr>version = 2, dirty = False\<rparr>, biz = [],
        trace = [Db CreateTable, Db QueryRecord]\<rparr>"]
    version_against_item_count [of "demo_env [''1.sql'']" demo_engine
      "demo_world\<lparr>row := Some \<lparr>version = 1, dirty = False\<rparr>\<rparr>"
      "[''1.sql'']" "demo_world\<lparr>row := Some \<lparr>version = 1, dirty = False\<rparr>\<rparr>"
      "[''Seed'' \<mapsto> demo_seed]" "[''migrate.txt'', ''1.sql'', ''2.sql'']"
      "\<lparr>version = 1, dirty = False\<rparr>"
      "\<lparr>row = Some \<lparr>version = 1, dirty = False\<rparr>, biz = [],
        trace = [Db CreateTable, Db QueryRecord]\<rparr>"]
  by (simp add: demo_defs exec_defs getSchemaItems_def getSchemaRecord_def initSchemaTable_def
      db_Exec_def db_QueryRow_def)

text \<open>
  A dirty record whose version equals the number of items: the run fails, since the dirty
  flag is tested first.
\<close>

theorem dirty_at_item_count_counterexample:
  "Run (demo_env [''1.sql'']) demo_engine
     (demo_world\<lparr>row := Some \<lparr>version = 1, dirty = True\<rparr>\<rparr>) =
     (Some (ErrFindDirtyIndex 1), demo_engine,
      \<lparr>row = Some \<lparr>version = 1, dirty = True\<rparr>, biz = [],
       trace = [Db CreateTable, Db QueryRecord]\<rparr>)"
  by (simp add: demo_defs exec_defs run_defs)

subsection \<open>C6: a blank line\<close>

text \<open>
  C6, as amended. The lines \<open>pre\<close> at the head of the list file are all different and
  none of them is blank. When a blank line follows them and a further line follows the
  blank one, reading the list fails with the error that cites the position
  \<open>length pre + 1\<close> of the blank line, and \<^verbatim>\<open>Run\<close> returns it with the engine and the
  world untouched: no step has been executed and the schema table has not been read.
  When the blank line is the last line of the file, it is skipped and the list read is
  \<open>pre\<close>.
\<close>

theorem blank_line_position:
  assumes opened: "os_Open env (fileJoin (schemaDir m) (schemaFile m)) = Inr f"
    and unique: "distinct pre"
    and first: "[] \<notin> set pre"
  shows "(scan_tokens f = pre @ [] # y # post \<longrightarrow>
            getSchemaItems env m w = (Inl (ErrSchemaRecordIsEmpty (int (length pre) + 1)), w)
            \<and> Run env m w = (Some (ErrSchemaRecordIsEmpty (int (length pre) + 1)), m, w))
     \<and> (scan_tokens f = pre @ [[]] \<longrightarrow> getSchemaItems env m w = (Inr pre, w))"
proof -
  have inner: "getSchemaItems env m w = (Inl (ErrSchemaRecordIsEmpty (int (length pre) + 1)), w)"
    if "scan_tokens f = pre @ [] # y # post"
    using getSchemaItems_open [OF opened] that scanItems_blank [OF unique first] by simp
  have last_line: "getSchemaItems env m w = (Inr pre, w)"
    if "scan_tokens f = pre @ [[]]"
    using getSchemaItems_open [OF opened] that scanItems_trailing_blank [OF unique first]
    by simp
  show ?thesis
    using inner last_line by (simp add: Run_items_error)
qed

text \<open>A blank second line of three, and a blank second line of two.\<close>

theorem blank_line_position_witness:
  "Run (demo_env [''1.sql'', '''', ''Seed'']) demo_engine demo_world =
     (Some (ErrSchemaRecordIsEmpty 2), demo_engine, demo_world)
   \<and> getSchemaItems (demo_env [''Seed'', '''']) demo_engine demo_world
     = (Inr [''Seed''], demo_world)"
  using blank_line_position [of "demo_env [''1.sql'', '''', ''Seed'']" demo_engine
      "\<lparr>scan_tokens = [''1.sql'', '''', ''Seed''], read_all = Inr []\<rparr>"
      "[''1.sql'']" "''Seed''" "[]" demo_world]
    blank_line_position [of "demo_env [''Seed'', '''']" demo_engine
      "\<lparr>scan_tokens = [''Seed'', ''''], read_all = Inr []\<rparr>"
      "[''Seed'']" _ _ demo_world]
  by (simp add: demo_defs)

text \<open>
  A blank line behind an earlier blank line or behind a repeated line is not the one
  reported, and a blank last line lets the run go on.
\<close>

theorem trailing_blank_line_counterexample:
  "getSchemaItems (demo_env [''1.sql'', '''']) demo_engine demo_world
     = (Inr [''1.sql''], demo_world)
   \<and> fst (Run (demo_env [''1.sql'', '''']) demo_engine demo_world) = None
   \<and> getSchemaItems (demo_env ['''', ''1.sql'', '''', ''Seed'']) demo_engine demo_world
     = (Inl (ErrSchemaRecordIsEmpty 1), demo_world)
   \<and> getSchemaItems (demo_env [''Seed'', ''Seed'', '''', ''1.sql'']) demo_engine demo_world
     = (Inl (ErrSchemaItemIsDuplicate ''Seed''), demo_world)"
  by (simp add: demo_defs exec_defs run_defs)

subsection \<open>C7: a repeated identifier\<close>

text \<open>
  C7, as amended. The line \<open>x\<close> of the list file repeats an earlier line, and the lines
  before it are all different and none of them is blank. Then \<^verbatim>\<open>Run\<close> returns the
  duplicate error that names \<open>x\<close>, with the engine and the world untouched: no step has
  been executed and the schema table has not been read.
\<close>

theorem repeated_identifier_fails:
  assumes opened: "os_Open env (fileJoin (schemaDir m) (schemaFile m)) = Inr f"
    and repeated: "scan_tokens f = pre @ x # post"
    and unique: "distinct pre"
    and no_blank: "[] \<notin> set pre"
    and seen: "x \<in> set pre"
  shows "Run env m w = (Some (ErrSchemaItemIsDuplicate x), m, w)"
proof -
  have "getSchemaItems env m w = (Inl (ErrSchemaItemIsDuplicate x), w)"
    using getSchemaItems_open [OF opened] repeated scanItems_dup [OF unique no_blank seen]
    by simp
  then show ?thesis
    by (simp add: Run_items_error)
qed

text \<open>The first line repeated as the third.\<close>

theorem repeated_identifier_fails_witness:
  "Run (demo_env [''1.sql'', ''Seed'', ''1.sql'']) demo_engine demo_world =
     (Some (ErrSchemaItemIsDuplicate ''1.sql''), demo_engine, demo_world)"
  using repeated_identifier_fails [of "demo_env [''1.sql'', ''Seed'', ''1.sql'']" demo_engine
      "\<lparr>scan_tokens = [''1.sql'', ''Seed'', ''1.sql''], read_all = Inr []\<rparr>"
      "[''1.sql'', ''Seed'']" "''1.sql''" "[]" demo_world]
  by (simp add: demo_defs)

text \<open>
  A blank line between the two occurrences is met first, and the error is the one of the
  blank line.
\<close>

theorem blank_before_repeat_counterexample:
  "Run (demo_env [''1.sql'', '''', ''1.sql'']) demo_engine demo_world =
     (Some (ErrSchemaRecordIsEmpty 2), demo_engine, demo_world)"
  by (simp add: demo_defs exec_defs run_defs)

subsection \<open>C8: a missing list file\<close>

text \<open>
  C8, as amended. Opening the list file fails with \<open>e\<close>. When \<open>e\<close> says that the file
  does not exist and both the creation of the directory and the creation of the file
  succeed, the parser has issued these two creations and returns the empty list without
  an error. When the creation of the directory or of the file fails, its error is
  returned. When \<open>e\<close> is any other error, \<open>e\<close> is returned and nothing is created.
\<close>

theorem missing_list_file:
  assumes failed: "os_Open env (fileJoin (schemaDir m) (schemaFile m)) = Inl e"
  shows "(e = OsErrNotExist
            \<and> os_MkdirAll env (path_Dir env (fileJoin (schemaDir m) (schemaFile m))) = None
            \<and> os_Create env (fileJoin (schemaDir m) (schemaFile m)) = None \<longrightarrow>
          getSchemaItems env m w =
            (Inr [], w\<lparr>trace := trace w @
               [FsMkdirAll (path_Dir env (fileJoin (schemaDir m) (schemaFile m))),
                FsCreate (fileJoin (schemaDir m) (schemaFile m))]\<rparr>))
     \<and> (e = OsErrNotExist
            \<and> os_MkdirAll env (path_Dir env (fileJoin (schemaDir m) (schemaFile m))) = Some e1 \<longrightarrow>
          fst (getSchemaItems env m w) = Inl e1)
     \<and> (e = OsErrNotExist
            \<and> os_MkdirAll env (path_Dir env (fileJoin (schemaDir m) (schemaFile m))) = None
            \<and> os_Create env (fileJoin (schemaDir m) (schemaFile m)) = Some e2 \<longrightarrow>
          fst (getSchemaItems env m w) = Inl e2)
     \<and> (e \<noteq> OsErrNotExist \<longrightarrow> getSchemaItems env m w = (Inl e, w))"
proof -
  let ?name = "fileJoin (schemaDir m) (schemaFile m)"
  let ?dir = "path_Dir env ?name"
  have other: "getSchemaItems env m w = (Inl e, w)" if "e \<noteq> OsErrNotExist"
    using failed that by (simp add: getSchemaItems_def Let_def)
  have no_dir: "fst (getSchemaItems env m w) = Inl e1"
    if "e = OsErrNotExist" "os_MkdirAll env ?dir = Some e1"
    using failed that by (simp add: getSchemaItems_def Let_def)
  have no_file: "fst (getSchemaItems env m w) = Inl e2"
    if "e = OsErrNotExist" "os_MkdirAll env ?dir = None" "os_Create env ?name = Some e2"
    using failed that by (simp add: getSchemaItems_def Let_def)
  have created: "getSchemaItems env m w =
      (Inr [], w\<lparr>trace := trace w @ [FsMkdirAll ?dir, FsCreate ?name]\<rparr>)"
    if "e = OsErrNotExist" "os_MkdirAll env ?dir = None" "os_Create env ?name = None"
    using failed that by (simp add: getSchemaItems_def Let_def)
  show ?thesis
    using other no_dir no_file created by (intro conjI impI) simp_all
qed

text \<open>The four cases on the installation without a list file.\<close>

theorem missing_list_file_witness:
  "getSchemaItems bare_env demo_engine demo_world =
     (Inr [], demo_world\<lparr>trace := [FsMkdirAll ''db'', FsCreate ''db/migrate.txt'']\<rparr>)
   \<and> fst (getSchemaItems (bare_env\<lparr>os_MkdirAll := \<lambda>p. Some (ExternalErr ''read-only'')\<rparr>)
        demo_engine demo_world) = Inl (ExternalErr ''read-only'')
   \<and> fst (getSchemaItems (bare_env\<lparr>os_Create := \<lambda>p. Some (ExternalErr ''denied'')\<rparr>)
        demo_engine demo_world) = Inl (ExternalErr ''denied'')
   \<and> getSchemaItems (bare_env\<lparr>os_Open := \<lambda>p. Inl (ExternalErr ''denied'')\<rparr>)
        demo_engine demo_world = (Inl (ExternalErr ''denied''), demo_world)"
  using missing_list_file [where env = bare_env and m = demo_engine and e = OsErrNotExist
      and w = demo_world]
    missing_list_file [where env = "bare_env\<lparr>os_MkdirAll := \<lambda>p. Some (ExternalErr ''read-only'')\<rparr>"
      and m = demo_engine and e = OsErrNotExist and ?e1.0 = "ExternalErr ''read-only''"
      and w = demo_world]
    missing_list_file [where env = "bare_env\<lparr>os_Create := \<lambda>p. Some (ExternalErr ''denied'')\<rparr>"
      and m = demo_engine and e = OsErrNotExist and ?e2.0 = "ExternalErr ''denied''"
      and w = demo_world]
    missing_list_file [where env = "bare_env\<lparr>os_Open := \<lambda>p. Inl (ExternalErr ''denied'')\<rparr>"
      and m = demo_engine and e = "ExternalErr ''denied''" and w = demo_world]
  by (simp add: bare_env_def demo_defs)

text \<open>
  The file does not exist and the directory cannot be created: the parser returns the
  error of the creation, not the empty list.
\<close>

theorem missing_list_file_counterexample:
  "os_Open (bare_env\<lparr>os_MkdirAll := \<lambda>p. Some (ExternalErr ''read-only'')\<rparr>)
      (fileJoin (schemaDir demo_engine) (schemaFile demo_engine)) = Inl OsErrNotExist
   \<and> getSchemaItems (bare_env\<lparr>os_MkdirAll := \<lambda>p. Some (ExternalErr ''read-only'')\<rparr>)
        demo_engine demo_world =
       (Inl (ExternalErr ''read-only''), demo_world\<lparr>trace := [FsMkdirAll ''db'']\<rparr>)"
  by (simp add: bare_env_def demo_defs getSchemaItems_def)

subsection \<open>C9: a commit that fails\<close>

text \<open>
  C9. The query is not empty, the transaction begins, the statement executes and the
  commit fails. Then \<^verbatim>\<open>Exec\<close> of the SQL handler returns nil; \<^verbatim>\<open>run\<close> sends the
  update of the version to the index of the handler, and when that update succeeds the
  stored version is this index and the loop has returned no error.
\<close>

theorem commit_error_discarded:
  assumes nonempty: "query \<noteq> []"
    and begun: "db_BeginTx env (biz w) = None"
    and stmt_ok: "tx_Exec env query (biz w) = Inr b'"
    and commit_fails: "tx_Commit env b' = Some msg"
  shows "fst (handler_Exec env (SqlHandler index query) (biz w)) = None
     \<and> trace (snd (run_loop env [SqlHandler index query] w))
         = trace w @ [Exec (SqlHandler index query), Db (UpdateVersion index)]
     \<and> (db_fault env (Suc (length (trace w))) (UpdateVersion index) = None \<longrightarrow>
          fst (run_loop env [SqlHandler index query] w) = None
          \<and> row (snd (run_loop env [SqlHandler index query] w))
              = map_option (\<lambda>old. old\<lparr>version := index\<rparr>) (row w))"
proof -
  let ?h = "SqlHandler index query"
  let ?w0 = "w\<lparr>trace := trace w @ [Exec ?h], biz := biz w\<rparr>"
  have exec: "handler_Exec env ?h (biz w) = (None, biz w)"
    using assms by (simp add: sqlHandler_Exec_def)
  obtain r2 w2 where d: "db_Exec env (UpdateVersion index) ?w0 = (r2, w2)"
    by fastforce
  have loop: "run_loop env [?h] w = (r2, w2)"
    using exec d by (cases r2) (simp_all add: Let_def)
  have tr: "trace w2 = trace w @ [Exec ?h, Db (UpdateVersion index)]"
    using db_Exec_cases [OF d] by simp
  have ok: "r2 = None \<and> row w2 = map_option (\<lambda>old. old\<lparr>version := index\<rparr>) (row w)"
    if "db_fault env (Suc (length (trace w))) (UpdateVersion index) = None"
    using d that by (auto simp: db_Exec_def Let_def)
  show ?thesis
    using exec loop tr ok by simp
qed

text \<open>A database whose commits all fail.\<close>

theorem commit_error_discarded_witness:
  "fst (handler_Exec ((demo_env [])\<lparr>tx_Commit := \<lambda>b. Some ''connection lost''\<rparr>)
          (SqlHandler 1 ''CREATE'') (biz demo_world)) = None
   \<and> fst (run_loop ((demo_env [])\<lparr>tx_Commit := \<lambda>b. Some ''connection lost''\<rparr>)
          [SqlHandler 1 ''CREATE''] demo_world) = None
   \<and> row (snd (run_loop ((demo_env [])\<lparr>tx_Commit := \<lambda>b. Some ''connection lost''\<rparr>)
          [SqlHandler 1 ''CREATE''] demo_world)) = Some \<lparr>version = 1, dirty = False\<rparr>"
  using commit_error_discarded [of "''CREATE''"
      "(demo_env [])\<lparr>tx_Commit := \<lambda>b. Some ''connection lost''\<rparr>" demo_world
      "[''CREATE'']" "''connection lost''" 1]
  by (simp add: demo_defs)

subsection \<open>C10: handlers registered by the caller\<close>




end
